theory Spec2Isabelle
  imports Main "HOL-Library.Word" "HOL-Library.Multiset"
begin

section \<open>The database cache of \<open>src/base/database_cache.h\<close>\<close>

text \<open>
  The class \<open>DatabaseCache\<close> owns two hash maps, \<open>cameras_\<close> and \<open>images_\<close>, and a
  correspondence graph. The header defines the accessors and \<open>GetStatsString\<close> inline;
  \<open>AddCamera\<close>, \<open>AddImage\<close>, \<open>Load\<close> and the constructor are only declared there, and the
  classes \<open>Camera\<close>, \<open>Image\<close>, \<open>CorrespondenceGraph\<close> and \<open>Database\<close> live in other headers.
\<close>

subsection \<open>Identifiers and records\<close>

text \<open>
  Modelled from the spec: \<open>util/types.h\<close> is not among the sources. The spec calls the
  keys integer identifiers; they are taken as unsigned 32-bit values, so that the
  conversion of \<open>image.first\<close> to the \<open>int\<close> elements of \<open>image_ids\<close> and back to
  \<open>image_t\<close> at the call of \<open>NumCorrespondencesBetweenImages\<close> keeps the bit pattern.
  \<open>size_t\<close> is the unsigned 64-bit type of the declaration of \<open>Load\<close>.
\<close>

type_synonym camera_t = "32 word"
type_synonym image_t = "32 word"
type_synonym size_t = "64 word"

text \<open>
  Modelled from the spec: \<open>base/camera.h\<close> and \<open>base/image.h\<close> are missing. A camera
  record is identified by its camera identifier and holds opaque model parameters; an
  image record is identified by its image identifier and holds a display name, a count
  of 2D observations and the identifier of its camera.
\<close>

record Camera =
  CameraId :: camera_t
  Params :: "int list"

record Image =
  ImageId :: image_t
  Name :: string
  Image_CameraId :: camera_t
  NumObservations :: nat

subsection \<open>Errors\<close>

text \<open>
  \<open>OutOfRange\<close> is the \<open>std::out_of_range\<close> thrown by \<open>unordered_map::at\<close>;
  \<open>FatalPrecondition\<close> is a failed precondition check, which aborts;
  \<open>VectorOutOfBounds v\<close> is the read of element 0 of the empty vector named \<open>v\<close>.
\<close>

datatype error = OutOfRange | FatalPrecondition | VectorOutOfBounds string

subsection \<open>Hash maps\<close>

text \<open>
  An \<open>unordered_map\<close> is an association list in its iteration order, which the
  standard leaves unspecified; its keys are pairwise distinct (\<open>umap_inv\<close>).
\<close>

type_synonym ('k, 'v) umap = "('k \<times> 'v) list"

definition umap_inv :: "('k, 'v) umap \<Rightarrow> bool" where
  "umap_inv m = distinct (map fst m)"

definition umap_keys :: "('k, 'v) umap \<Rightarrow> 'k set" where
  "umap_keys m = fst ` set m"

definition umap_size :: "('k, 'v) umap \<Rightarrow> nat" where
  "umap_size m = length m"

fun umap_find :: "('k, 'v) umap \<Rightarrow> 'k \<Rightarrow> 'v option" where
  "umap_find [] k = None"
| "umap_find ((k', v) # m) k = (if k' = k then Some v else umap_find m k)"

definition umap_at :: "('k, 'v) umap \<Rightarrow> 'k \<Rightarrow> error + 'v" where
  "umap_at m k = (case umap_find m k of None \<Rightarrow> Inl OutOfRange | Some v \<Rightarrow> Inr v)"

text \<open>
  \<open>emplace\<close> leaves the map as it is when the key is present. The place of a new
  entry in the iteration order is unspecified; the model puts it last, and no theorem
  about all caches depends on that place.
\<close>

definition umap_emplace :: "('k, 'v) umap \<Rightarrow> 'k \<Rightarrow> 'v \<Rightarrow> ('k, 'v) umap" where
  "umap_emplace m k v = (if umap_find m k = None then m @ [(k, v)] else m)"

subsection \<open>The correspondence graph\<close>

text \<open>
  Modelled from the spec: \<open>base/correspondence_graph.h\<close> is missing. The
  correspondence index is a weighted undirected graph over image identifiers, the
  weight of an edge being the number of surviving feature correspondences of the pair.
  An edge is keyed by its unordered pair of endpoints, written smaller identifier first;
  a pair without an edge has no correspondences.
\<close>

record CorrespondenceGraph =
  image_pairs :: "(image_t \<times> image_t, nat) umap"

definition ImagePair :: "image_t \<Rightarrow> image_t \<Rightarrow> image_t \<times> image_t" where
  "ImagePair a b = (if a \<le> b then (a, b) else (b, a))"

definition NumImagePairs :: "CorrespondenceGraph \<Rightarrow> nat" where
  "NumImagePairs g = umap_size (image_pairs g)"


definition NumCorrespondencesBetweenImages ::
    "CorrespondenceGraph \<Rightarrow> image_t \<Rightarrow> image_t \<Rightarrow> nat" where
  "NumCorrespondencesBetweenImages g a b =
     (case umap_find (image_pairs g) (ImagePair a b) of None \<Rightarrow> 0 | Some n \<Rightarrow> n)"

fun umap_accumulate :: "('k, nat) umap \<Rightarrow> 'k \<Rightarrow> nat \<Rightarrow> ('k, nat) umap" where
  "umap_accumulate [] k n = [(k, n)]"
| "umap_accumulate ((k', n') # m) k n =
     (if k' = k then (k', n' + n) # m else (k', n') # umap_accumulate m k n)"

definition AddCorrespondences ::
    "CorrespondenceGraph \<Rightarrow> image_t \<Rightarrow> image_t \<Rightarrow> nat \<Rightarrow> CorrespondenceGraph" where
  "AddCorrespondences g a b n =
     g\<lparr>image_pairs := umap_accumulate (image_pairs g) (ImagePair a b) n\<rparr>"

subsection \<open>The cache and its accessors\<close>

text \<open>
  The members \<open>correspondence_graph_\<close>, \<open>cameras_\<close> and \<open>images_\<close>; a name of
  the logic cannot end with an underscore, so the fields drop it.
\<close>

record DatabaseCache =
  correspondence_graph :: CorrespondenceGraph
  cameras :: "(camera_t, Camera) umap"
  images :: "(image_t, Image) umap"

definition cache_inv :: "DatabaseCache \<Rightarrow> bool" where
  "cache_inv c = (umap_inv (cameras c) \<and> umap_inv (images c))"

definition NumCameras :: "DatabaseCache \<Rightarrow> nat" where
  "NumCameras c = umap_size (cameras c)"

definition NumImages :: "DatabaseCache \<Rightarrow> nat" where
  "NumImages c = umap_size (images c)"

text \<open>
  \<open>DatabaseCache::Camera\<close> and \<open>DatabaseCache::Image\<close>, both overloads: \<open>at\<close> on the
  map. (\<open>Image\<close> is the relational image in HOL, hence the prefix.)
\<close>

definition DatabaseCache_Camera :: "DatabaseCache \<Rightarrow> camera_t \<Rightarrow> error + Camera" where
  "DatabaseCache_Camera c camera_id = umap_at (cameras c) camera_id"

definition DatabaseCache_Image :: "DatabaseCache \<Rightarrow> image_t \<Rightarrow> error + Image" where
  "DatabaseCache_Image c image_id = umap_at (images c) image_id"

definition Cameras :: "DatabaseCache \<Rightarrow> (camera_t, Camera) umap" where
  "Cameras c = cameras c"

definition Images :: "DatabaseCache \<Rightarrow> (image_t, Image) umap" where
  "Images c = images c"

definition ExistsCamera :: "DatabaseCache \<Rightarrow> camera_t \<Rightarrow> bool" where
  "ExistsCamera c camera_id = (umap_find (cameras c) camera_id \<noteq> None)"

definition ExistsImage :: "DatabaseCache \<Rightarrow> image_t \<Rightarrow> bool" where
  "ExistsImage c image_id = (umap_find (images c) image_id \<noteq> None)"

definition CorrespondenceGraph :: "DatabaseCache \<Rightarrow> CorrespondenceGraph" where
  "CorrespondenceGraph c = correspondence_graph c"
subsection \<open>The constructor and manual insertion\<close>

text \<open>
  Modelled from the spec: the constructor lives in \<open>database_cache.cc\<close>, which is
  missing. The cache is created empty.
\<close>

definition DatabaseCache :: DatabaseCache where
  "DatabaseCache =
     \<lparr>correspondence_graph = \<lparr>image_pairs = []\<rparr>, cameras = [], images = []\<rparr>"

text \<open>
  Modelled from the spec: \<open>AddCamera\<close> and \<open>AddImage\<close> are only declared in the
  header. Each inserts the record keyed by its identifier and fails, as a fatal
  precondition violation, if the identifier already exists; the correspondence graph is
  not touched on this path.
\<close>

definition AddCamera :: "DatabaseCache \<Rightarrow> Camera \<Rightarrow> error + DatabaseCache" where
  "AddCamera c camera =
     (if ExistsCamera c (CameraId camera) then Inl FatalPrecondition
      else Inr (c\<lparr>cameras := umap_emplace (cameras c) (CameraId camera) camera\<rparr>))"

definition AddImage :: "DatabaseCache \<Rightarrow> Image \<Rightarrow> error + DatabaseCache" where
  "AddImage c img =
     (if ExistsImage c (ImageId img) then Inl FatalPrecondition
      else Inr (c\<lparr>images := umap_emplace (images c) (ImageId img) img\<rparr>))"

text \<open>A sequence of manual insertions; the first failure ends it.\<close>

datatype cache_op = OpAddCamera Camera | OpAddImage Image

fun apply_op :: "DatabaseCache \<Rightarrow> cache_op \<Rightarrow> error + DatabaseCache" where
  "apply_op c (OpAddCamera camera) = AddCamera c camera"
| "apply_op c (OpAddImage img) = AddImage c img"

fun apply_ops :: "DatabaseCache \<Rightarrow> cache_op list \<Rightarrow> error + DatabaseCache" where
  "apply_ops c [] = Inr c"
| "apply_ops c (x # xs) =
     (case apply_op c x of Inl e \<Rightarrow> Inl e | Inr c' \<Rightarrow> apply_ops c' xs)"

fun is_OpAddCamera :: "cache_op \<Rightarrow> bool" where
  "is_OpAddCamera (OpAddCamera camera) = True"
| "is_OpAddCamera (OpAddImage img) = False"

fun is_OpAddImage :: "cache_op \<Rightarrow> bool" where
  "is_OpAddImage (OpAddCamera camera) = False"
| "is_OpAddImage (OpAddImage img) = True"

subsection \<open>The loader\<close>

text \<open>
  Modelled from the spec: \<open>base/database.h\<close> is missing. The database enumerates all
  camera records, all image records and all pairwise match records; a match record
  names a pair of image identifiers, a correspondence count and a watermark flag.
\<close>

record MatchRecord =
  image_id1 :: image_t
  image_id2 :: image_t
  num_matches :: nat
  is_watermark :: bool

record Database =
  ReadAllCameras :: "Camera list"
  ReadAllImages :: "Image list"
  ReadAllMatches :: "MatchRecord list"

text \<open>
  Modelled from the spec: the body of \<open>Load\<close> is in the missing
  \<open>database_cache.cc\<close>; its signature is the header's, with \<open>min_num_matches\<close> a
  \<open>size_t\<close>. The steps are those of the spec:
  \<^enum> the retained images are those whose name is in \<open>image_names\<close>, or all images of
    the database when \<open>image_names\<close> is empty;
  \<^enum> every camera referenced by at least one retained image is loaded;
  \<^enum> every retained image is loaded;
  \<^enum> the match records are streamed: a record is skipped if either endpoint image is
    not retained, if \<open>ignore_watermarks\<close> is true and the record is flagged as a
    watermark pair, or if its count is strictly less than \<open>min_num_matches\<close>; otherwise
    its edge is inserted or accumulated into the correspondence index;
  \<^enum> images left without an edge are kept.
  A row read twice is kept once (\<open>emplace\<close>). A call on a cache that is not empty is a
  fatal precondition violation. The spec also makes a negative \<open>min_num_matches\<close> a fatal
  precondition violation; the unsigned parameter type of the header has no negative
  value, so there is nothing for the body to test. The database is given by the three
  lists it enumerates, so a failing enumeration (the spec's I/O or format error of
  \<open>Load\<close>) has no branch here: the theorems about \<open>Load\<close> are about its precondition
  and about the result of a call that returned, and none states that a call on an
  arbitrary database returns.
\<close>

definition retained_images :: "Database \<Rightarrow> string set \<Rightarrow> Image list" where
  "retained_images database image_names =
     (if image_names = {} then ReadAllImages database
      else filter (\<lambda>img. Name img \<in> image_names) (ReadAllImages database))"

definition referenced_cameras :: "Database \<Rightarrow> Image list \<Rightarrow> Camera list" where
  "referenced_cameras database imgs =
     filter (\<lambda>camera. CameraId camera \<in> Image_CameraId ` set imgs) (ReadAllCameras database)"

definition load_match ::
    "image_t set \<Rightarrow> size_t \<Rightarrow> bool \<Rightarrow> CorrespondenceGraph \<Rightarrow> MatchRecord \<Rightarrow> CorrespondenceGraph" where
  "load_match image_ids min_num_matches ignore_watermarks g r =
     (if image_id1 r \<notin> image_ids \<or> image_id2 r \<notin> image_ids then g
      else if ignore_watermarks \<and> is_watermark r then g
      else if num_matches r < unat min_num_matches then g
      else AddCorrespondences g (image_id1 r) (image_id2 r) (num_matches r))"

fun load_matches ::
    "image_t set \<Rightarrow> size_t \<Rightarrow> bool \<Rightarrow> CorrespondenceGraph \<Rightarrow> MatchRecord list \<Rightarrow> CorrespondenceGraph" where
  "load_matches image_ids min_num_matches ignore_watermarks g [] = g"
| "load_matches image_ids min_num_matches ignore_watermarks g (r # rs) =
     load_matches image_ids min_num_matches ignore_watermarks
       (load_match image_ids min_num_matches ignore_watermarks g r) rs"

fun load_cameras :: "(camera_t, Camera) umap \<Rightarrow> Camera list \<Rightarrow> (camera_t, Camera) umap" where
  "load_cameras m [] = m"
| "load_cameras m (camera # cs) = load_cameras (umap_emplace m (CameraId camera) camera) cs"

fun load_images :: "(image_t, Image) umap \<Rightarrow> Image list \<Rightarrow> (image_t, Image) umap" where
  "load_images m [] = m"
| "load_images m (img # is) = load_images (umap_emplace m (ImageId img) img) is"

definition Load ::
    "DatabaseCache \<Rightarrow> Database \<Rightarrow> size_t \<Rightarrow> bool \<Rightarrow> string set \<Rightarrow> error + DatabaseCache" where
  "Load c database min_num_matches ignore_watermarks image_names =
     (if NumCameras c \<noteq> 0 \<or> NumImages c \<noteq> 0 \<or> NumImagePairs (correspondence_graph c) \<noteq> 0
      then Inl FatalPrecondition
      else
        let imgs = retained_images database image_names;
            image_ids = ImageId ` set imgs
        in Inr \<lparr>correspondence_graph =
                   load_matches image_ids min_num_matches ignore_watermarks
                     (correspondence_graph c) (ReadAllMatches database),
                 cameras = load_cameras (cameras c) (referenced_cameras database imgs),
                 images = load_images (images c) imgs\<rparr>)"

subsection \<open>Statistics\<close>

text \<open>
  \<open>GetStatsString\<close> keeps its counts in \<open>std::vector<int>\<close>. A count of the missing
  headers is an unsigned number; its conversion to the 32-bit \<open>int\<close> keeps the low 32
  bits, read as two's complement. An image identifier is stored in \<open>image_ids\<close> as an
  \<open>int\<close> and converted back at the call of \<open>NumCorrespondencesBetweenImages\<close>.
\<close>

definition int_of_count :: "nat \<Rightarrow> int" where
  "int_of_count n = sint (word_of_nat n :: 32 word)"

definition int_of_image_t :: "image_t \<Rightarrow> int" where
  "int_of_image_t image_id = sint image_id"

definition image_t_of_int :: "int \<Rightarrow> image_t" where
  "image_t_of_int i = word_of_int i"

text \<open>
  The average is a \<open>double\<close>. Its arithmetic and its formatting by the stream are
  parameters: the literal \<open>0.0\<close>, \<open>avg_val += v[i]\<close>, \<open>avg_val /= v.size()\<close> and
  \<open>buffer << avg_val\<close>.
\<close>

record 'd double_ops =
  d_zero :: 'd
  d_add_int :: "'d \<Rightarrow> int \<Rightarrow> 'd"
  d_div_size :: "'d \<Rightarrow> nat \<Rightarrow> 'd"
  d_print :: "'d \<Rightarrow> string"

text \<open>\<open>buffer << min_val\<close> writes an \<open>int\<close> in decimal.\<close>

fun nat_digits :: "nat \<Rightarrow> string" where
  "nat_digits n =
     (if n < 10 then [''0123456789'' ! n]
      else nat_digits (n div 10) @ [''0123456789'' ! (n mod 10)])"

definition show_int :: "int \<Rightarrow> string" where
  "show_int i = (if i < 0 then CHR ''-'' # nat_digits (nat (- i)) else nat_digits (nat i))"

text \<open>The loop \<open>for i < size: avg_val += v[i]\<close>, then the division by the size.\<close>

fun sum_double :: "'d double_ops \<Rightarrow> 'd \<Rightarrow> int list \<Rightarrow> 'd" where
  "sum_double D avg_val [] = avg_val"
| "sum_double D avg_val (x # v) = sum_double D (d_add_int D avg_val x) v"

definition avg_double :: "'d double_ops \<Rightarrow> int list \<Rightarrow> 'd" where
  "avg_double D v = d_div_size D (sum_double D (d_zero D) v) (length v)"

text \<open>
  The nested loops over \<open>i\<close> and \<open>j = i + 1, ...\<close>: one count for each pair of positions
  of \<open>image_ids\<close>, the pairs of the first position first.
\<close>

fun pairwise_matches :: "CorrespondenceGraph \<Rightarrow> int list \<Rightarrow> int list" where
  "pairwise_matches g [] = []"
| "pairwise_matches g (id_i # ids) =
     map (\<lambda>id_j. int_of_count
            (NumCorrespondencesBetweenImages g (image_t_of_int id_i) (image_t_of_int id_j))) ids
     @ pairwise_matches g ids"

text \<open>The lines written to \<open>std::cout\<close> by the first loop, in iteration order.\<close>

definition GetStatsString_cout :: "DatabaseCache \<Rightarrow> string" where
  "GetStatsString_cout c =
     concat (map (\<lambda>(image_id, img).
        Name img @ '', '' @ show_int (int_of_count (NumObservations img)) @ ''\<newline>'')
        (images c))"

text \<open>
  The returned string. \<open>v[0]\<close> on an empty vector is outside the vector; that read is
  the error \<open>VectorOutOfBounds\<close>, and nothing after it is reached.
\<close>

definition GetStatsString :: "'d double_ops \<Rightarrow> DatabaseCache \<Rightarrow> error + string" where
  "GetStatsString D c =
     (let image_ids = map (\<lambda>(image_id, img). int_of_image_t image_id) (images c);
          num_observations =
            sort (map (\<lambda>(image_id, img). int_of_count (NumObservations img)) (images c))
      in if num_observations = [] then Inl (VectorOutOfBounds ''num_observations'')
         else
           let min_val = num_observations ! 0;
               max_val = last num_observations;
               avg_val = avg_double D num_observations;
               buffer =
                 ''\<newline>Avg. Per-view Observations: '' @ d_print D avg_val @
                 ''\<newline>Min. Per-view Observations: '' @ show_int min_val @
                 ''\<newline>Max. Per-view Observations: '' @ show_int max_val;
               num_pairwise_matches = sort (pairwise_matches (correspondence_graph c) image_ids)
           in if num_pairwise_matches = [] then Inl (VectorOutOfBounds ''num_pairwise_matches'')
              else
                let min_val = num_pairwise_matches ! 0;
                    max_val = last num_pairwise_matches;
                    avg_val = avg_double D num_pairwise_matches
                in Inr (buffer @
                     ''\<newline>Avg. Pair-wise Matches: '' @ d_print D avg_val @
                     ''\<newline>Min. Pair-wise Matches: '' @ show_int min_val @
                     ''\<newline>Max. Pair-wise Matches: '' @ show_int max_val @ ''\<newline>''))"

subsection \<open>Example data\<close>

definition cam7 :: Camera where
  "cam7 = \<lparr>CameraId = 7, Params = [1]\<rparr>"

definition imgA :: Image where
  "imgA = \<lparr>ImageId = 1, Name = ''A'', Image_CameraId = 7, NumObservations = 9\<rparr>"

definition imgB :: Image where
  "imgB = \<lparr>ImageId = 2, Name = ''B'', Image_CameraId = 7, NumObservations = 4\<rparr>"

definition imgC :: Image where
  "imgC = \<lparr>ImageId = 3, Name = ''C'', Image_CameraId = 7, NumObservations = 6\<rparr>"

text \<open>The cache after \<open>AddCamera cam7\<close>, \<open>AddImage imgA\<close>, \<open>AddImage imgB\<close>.\<close>

definition cache_AB :: DatabaseCache where
  "cache_AB = \<lparr>correspondence_graph = \<lparr>image_pairs = []\<rparr>,
     cameras = [(7, cam7)], images = [(1, imgA), (2, imgB)]\<rparr>"

text \<open>
  The database of the spec's filter example: images \<open>A\<close>, \<open>B\<close>, \<open>C\<close> of one camera and
  the matches \<open>A-B: 10\<close>, \<open>B-C: 2\<close> (a watermark pair) and \<open>A-C: 5\<close>.
\<close>

definition db_ABC :: Database where
  "db_ABC = \<lparr>ReadAllCameras = [cam7], ReadAllImages = [imgA, imgB, imgC],
     ReadAllMatches =
       [\<lparr>image_id1 = 1, image_id2 = 2, num_matches = 10, is_watermark = False\<rparr>,
        \<lparr>image_id1 = 2, image_id2 = 3, num_matches = 2, is_watermark = True\<rparr>,
        \<lparr>image_id1 = 1, image_id2 = 3, num_matches = 5, is_watermark = False\<rparr>]\<rparr>"

text \<open>The caches loaded from it with the edges \<open>A-B\<close> and \<open>A-C\<close>, and with \<open>A-B\<close> alone.\<close>

definition cache_ABC :: DatabaseCache where
  "cache_ABC = \<lparr>correspondence_graph = \<lparr>image_pairs = [((1, 2), 10), ((1, 3), 5)]\<rparr>,
     cameras = [(7, cam7)], images = [(1, imgA), (2, imgB), (3, imgC)]\<rparr>"


text \<open>
  The cache \<open>cache_ABC\<close> with both hash maps iterated in another order, a cache with
  the single image \<open>A\<close>, and an instance of the \<open>double\<close> operations for running
  \<open>GetStatsString\<close>: integers, with the division rounding down.
\<close>

definition cache_CBA :: DatabaseCache where
  "cache_CBA = \<lparr>correspondence_graph = \<lparr>image_pairs = [((1, 3), 5), ((1, 2), 10)]\<rparr>,
     cameras = [(7, cam7)], images = [(3, imgC), (2, imgB), (1, imgA)]\<rparr>"

definition cache_A :: DatabaseCache where
  "cache_A = \<lparr>correspondence_graph = \<lparr>image_pairs = []\<rparr>,
     cameras = [(7, cam7)], images = [(1, imgA)]\<rparr>"

definition int_ops :: "int double_ops" where
  "int_ops = \<lparr>d_zero = 0, d_add_int = (+), d_div_size = (\<lambda>a n. a div int n),
     d_print = show_int\<rparr>"

section \<open>Properties\<close>

subsection \<open>Hash-map lemmas\<close>

lemma umap_find_None_iff: "umap_find m k = None \<longleftrightarrow> k \<notin> umap_keys m"
  by (induction m) (auto simp: umap_keys_def split: if_splits)

lemma umap_find_mem:
  "umap_inv m \<Longrightarrow> (k, v) \<in> set m \<Longrightarrow> umap_find m k = Some v"
  by (induction m) (force simp: umap_inv_def)+

lemma umap_at_Inl_iff: "umap_at m k = Inl e \<longleftrightarrow> e = OutOfRange \<and> k \<notin> umap_keys m"
  by (cases "umap_find m k") (auto simp: umap_at_def simp flip: umap_find_None_iff)

lemma umap_find_Some_mem: "umap_find m k = Some v \<Longrightarrow> (k, v) \<in> set m"
  by (induction m) (auto split: if_splits)

lemma umap_at_Inr_mem: "umap_at m k = Inr v \<Longrightarrow> (k, v) \<in> set m"
  by (auto simp: umap_at_def umap_find_Some_mem split: option.splits)

lemma umap_at_mem: "umap_inv m \<Longrightarrow> (k, v) \<in> set m \<Longrightarrow> umap_at m k = Inr v"
  by (simp add: umap_at_def umap_find_mem)

lemma umap_size_card: "umap_inv m \<Longrightarrow> umap_size m = card (umap_keys m)"
  by (simp add: umap_inv_def umap_size_def umap_keys_def distinct_card flip: set_map)

lemma umap_keys_emplace: "umap_keys (umap_emplace m k v) = insert k (umap_keys m)"
  by (auto simp: umap_emplace_def umap_find_None_iff umap_keys_def)

lemma umap_inv_emplace: "umap_inv m \<Longrightarrow> umap_inv (umap_emplace m k v)"
  by (auto simp: umap_emplace_def umap_inv_def umap_find_None_iff umap_keys_def)

lemma umap_size_emplace_new:
  "k \<notin> umap_keys m \<Longrightarrow> umap_size (umap_emplace m k v) = Suc (umap_size m)"
  by (simp add: umap_emplace_def umap_size_def umap_find_None_iff)

lemma count_list_distinct: "distinct xs \<Longrightarrow> x \<in> set xs \<Longrightarrow> count_list xs x = 1"
  by (induction xs) auto

lemma count_list_keys:
  "umap_inv m \<Longrightarrow> k \<in> umap_keys m \<Longrightarrow> count_list (map fst m) k = 1"
  by (simp add: umap_inv_def umap_keys_def count_list_distinct)

subsection \<open>Lookup and membership\<close>

text \<open>
  Claim C2. \<open>Camera(id)\<close> fails exactly when \<open>id\<close> is not a key of the camera map, and
  the failure is the out-of-range error of \<open>at\<close>; the same holds of \<open>Image(id)\<close> and
  the image map. A returned record is an entry of the map under \<open>id\<close>, and when the
  map holds the entry \<open>(id, r)\<close>, the call returns \<open>r\<close>.
\<close>

theorem Camera_Image_lookup:
  "((\<exists>e. DatabaseCache_Camera c camera_id = Inl e) \<longleftrightarrow> camera_id \<notin> umap_keys (cameras c)) \<and>
   ((\<exists>e. DatabaseCache_Image c image_id = Inl e) \<longleftrightarrow> image_id \<notin> umap_keys (images c)) \<and>
   (DatabaseCache_Camera c camera_id = Inl OutOfRange \<longleftrightarrow> camera_id \<notin> umap_keys (cameras c)) \<and>
   (DatabaseCache_Image c image_id = Inl OutOfRange \<longleftrightarrow> image_id \<notin> umap_keys (images c)) \<and>
   (DatabaseCache_Camera c camera_id = Inr cam \<longrightarrow> (camera_id, cam) \<in> set (cameras c)) \<and>
   (DatabaseCache_Image c image_id = Inr img \<longrightarrow> (image_id, img) \<in> set (images c)) \<and>
   (cache_inv c \<longrightarrow> (camera_id, cam) \<in> set (cameras c) \<longrightarrow>
      DatabaseCache_Camera c camera_id = Inr cam) \<and>
   (cache_inv c \<longrightarrow> (image_id, img) \<in> set (images c) \<longrightarrow>
      DatabaseCache_Image c image_id = Inr img)"
proof -
  have "(camera_id, cam) \<in> set (cameras c)" if "DatabaseCache_Camera c camera_id = Inr cam"
    using that unfolding DatabaseCache_Camera_def by (rule umap_at_Inr_mem)
  moreover have "(image_id, img) \<in> set (images c)"
    if "DatabaseCache_Image c image_id = Inr img"
    using that unfolding DatabaseCache_Image_def by (rule umap_at_Inr_mem)
  ultimately show ?thesis
    by (simp add: DatabaseCache_Camera_def DatabaseCache_Image_def cache_inv_def
        umap_at_Inl_iff umap_at_mem)
qed

theorem Camera_Image_lookup_witness:
  "cache_inv cache_AB \<and>
   (7, cam7) \<in> set (cameras cache_AB) \<and> DatabaseCache_Camera cache_AB 7 = Inr cam7 \<and>
   (1, imgA) \<in> set (images cache_AB) \<and> DatabaseCache_Image cache_AB 1 = Inr imgA \<and>
   DatabaseCache_Camera cache_AB 8 = Inl OutOfRange \<and>
   DatabaseCache_Image cache_AB 3 = Inl OutOfRange"
  using Camera_Image_lookup [of cache_AB 7 1 cam7 imgA] Camera_Image_lookup [of cache_AB 8 3]
  by (simp add: cache_AB_def cache_inv_def umap_inv_def umap_keys_def)

text \<open>
  Claim C5. \<open>ExistsCamera\<close> and \<open>ExistsImage\<close> have no failing branch: each is a truth
  value in every cache state, true exactly when the identifier is a key of its map.
\<close>

theorem Exists_iff_key:
  "(ExistsCamera c camera_id \<longleftrightarrow> camera_id \<in> umap_keys (cameras c)) \<and>
   (ExistsImage c image_id \<longleftrightarrow> image_id \<in> umap_keys (images c))"
  by (simp add: ExistsCamera_def ExistsImage_def umap_find_None_iff)

subsection \<open>Manual insertion\<close>

lemma cache_inv_DatabaseCache: "cache_inv DatabaseCache"
  by (simp add: cache_inv_def DatabaseCache_def umap_inv_def)

lemma AddCamera_Inr:
  "AddCamera c camera = Inr c' \<longleftrightarrow>
     CameraId camera \<notin> umap_keys (cameras c) \<and>
     c' = c\<lparr>cameras := umap_emplace (cameras c) (CameraId camera) camera\<rparr>"
  by (auto simp: AddCamera_def ExistsCamera_def umap_find_None_iff)

lemma AddImage_Inr:
  "AddImage c img = Inr c' \<longleftrightarrow>
     ImageId img \<notin> umap_keys (images c) \<and>
     c' = c\<lparr>images := umap_emplace (images c) (ImageId img) img\<rparr>"
  by (auto simp: AddImage_def ExistsImage_def umap_find_None_iff)

lemma apply_op_inv: "apply_op c x = Inr c' \<Longrightarrow> cache_inv c \<Longrightarrow> cache_inv c'"
  by (cases x) (auto simp: AddCamera_Inr AddImage_Inr cache_inv_def umap_inv_emplace)

lemma apply_ops_inv: "apply_ops c xs = Inr c' \<Longrightarrow> cache_inv c \<Longrightarrow> cache_inv c'"
  by (induction xs arbitrary: c) (auto split: sum.splits dest: apply_op_inv)

lemma apply_op_keys_mono:
  "apply_op c x = Inr c' \<Longrightarrow>
     umap_keys (cameras c) \<subseteq> umap_keys (cameras c') \<and>
     umap_keys (images c) \<subseteq> umap_keys (images c')"
  by (cases x) (auto simp: AddCamera_Inr AddImage_Inr umap_keys_emplace)

lemma apply_ops_keys_mono:
  "apply_ops c xs = Inr c' \<Longrightarrow>
     umap_keys (cameras c) \<subseteq> umap_keys (cameras c') \<and>
     umap_keys (images c) \<subseteq> umap_keys (images c')"
proof (induction xs arbitrary: c)
  case Nil
  then show ?case by simp
next
  case (Cons x xs)
  then obtain c1 where c1: "apply_op c x = Inr c1" "apply_ops c1 xs = Inr c'"
    by (auto split: sum.splits)
  from apply_op_keys_mono [OF c1(1)] Cons.IH [OF c1(2)] show ?case
    by blast
qed

lemma apply_ops_camera_key:
  "apply_ops c xs = Inr c' \<Longrightarrow> OpAddCamera camera \<in> set xs \<Longrightarrow>
     CameraId camera \<in> umap_keys (cameras c')"
proof (induction xs arbitrary: c)
  case Nil
  then show ?case by simp
next
  case (Cons x xs)
  then obtain c1 where c1: "apply_op c x = Inr c1" "apply_ops c1 xs = Inr c'"
    by (auto split: sum.splits)
  show ?case
  proof (cases "x = OpAddCamera camera")
    case True
    with c1(1) have "CameraId camera \<in> umap_keys (cameras c1)"
      by (simp add: AddCamera_Inr umap_keys_emplace)
    with apply_ops_keys_mono [OF c1(2)] show ?thesis by blast
  next
    case False
    with Cons.prems(2) have "OpAddCamera camera \<in> set xs" by simp
    with Cons.IH [OF c1(2)] show ?thesis by simp
  qed
qed

lemma apply_ops_image_key:
  "apply_ops c xs = Inr c' \<Longrightarrow> OpAddImage img \<in> set xs \<Longrightarrow>
     ImageId img \<in> umap_keys (images c')"
proof (induction xs arbitrary: c)
  case Nil
  then show ?case by simp
next
  case (Cons x xs)
  then obtain c1 where c1: "apply_op c x = Inr c1" "apply_ops c1 xs = Inr c'"
    by (auto split: sum.splits)
  show ?case
  proof (cases "x = OpAddImage img")
    case True
    with c1(1) have "ImageId img \<in> umap_keys (images c1)"
      by (simp add: AddImage_Inr umap_keys_emplace)
    with apply_ops_keys_mono [OF c1(2)] show ?thesis by blast
  next
    case False
    with Cons.prems(2) have "OpAddImage img \<in> set xs" by simp
    with Cons.IH [OF c1(2)] show ?thesis by simp
  qed
qed

lemma apply_ops_cache_AB:
  "apply_ops DatabaseCache [OpAddCamera cam7, OpAddImage imgA, OpAddImage imgB] = Inr cache_AB"
  by (simp add: DatabaseCache_def cache_AB_def cam7_def imgA_def imgB_def AddCamera_def
      AddImage_def ExistsCamera_def ExistsImage_def umap_emplace_def)

text \<open>
  Claim C3. \<open>AddCamera\<close> fails with a fatal precondition violation when the camera's
  identifier exists in the store, and \<open>AddImage\<close> likewise for an image. After a sequence
  of insertions on a fresh cache that all succeeded, the keys of both maps are pairwise
  distinct and every inserted identifier occurs exactly once among the keys of its map.
\<close>

theorem manual_insertion_no_duplicates:
  "(ExistsCamera c (CameraId camera) \<longrightarrow> AddCamera c camera = Inl FatalPrecondition) \<and>
   (ExistsImage c (ImageId img) \<longrightarrow> AddImage c img = Inl FatalPrecondition) \<and>
   (apply_ops DatabaseCache xs = Inr c' \<longrightarrow>
      distinct (map fst (cameras c')) \<and> distinct (map fst (images c')) \<and>
      (\<forall>cam. OpAddCamera cam \<in> set xs \<longrightarrow>
         count_list (map fst (cameras c')) (CameraId cam) = 1) \<and>
      (\<forall>im. OpAddImage im \<in> set xs \<longrightarrow>
         count_list (map fst (images c')) (ImageId im) = 1))"
proof -
  have inv: "umap_inv (cameras c') \<and> umap_inv (images c')"
    if "apply_ops DatabaseCache xs = Inr c'"
    using apply_ops_inv [OF that cache_inv_DatabaseCache] by (simp add: cache_inv_def)
  have "AddCamera c camera = Inl FatalPrecondition" if "ExistsCamera c (CameraId camera)"
    using that by (simp add: AddCamera_def)
  moreover have "AddImage c img = Inl FatalPrecondition" if "ExistsImage c (ImageId img)"
    using that by (simp add: AddImage_def)
  moreover have "distinct (map fst (cameras c')) \<and> distinct (map fst (images c'))"
    if "apply_ops DatabaseCache xs = Inr c'"
    using inv [OF that] by (simp add: umap_inv_def)
  moreover have "count_list (map fst (cameras c')) (CameraId cam) = 1"
    if "apply_ops DatabaseCache xs = Inr c'" "OpAddCamera cam \<in> set xs" for cam
    using inv [OF that(1)] apply_ops_camera_key [OF that] by (simp add: count_list_keys)
  moreover have "count_list (map fst (images c')) (ImageId im) = 1"
    if "apply_ops DatabaseCache xs = Inr c'" "OpAddImage im \<in> set xs" for im
    using inv [OF that(1)] apply_ops_image_key [OF that] by (simp add: count_list_keys)
  ultimately show ?thesis by blast
qed

theorem manual_insertion_no_duplicates_witness:
  "apply_ops DatabaseCache [OpAddCamera cam7, OpAddImage imgA, OpAddImage imgB] = Inr cache_AB \<and>
   ExistsCamera cache_AB (CameraId cam7) \<and> AddCamera cache_AB cam7 = Inl FatalPrecondition \<and>
   ExistsImage cache_AB (ImageId imgB) \<and> AddImage cache_AB imgB = Inl FatalPrecondition \<and>
   count_list (map fst (cameras cache_AB)) 7 = 1 \<and>
   count_list (map fst (images cache_AB)) 2 = 1"
proof -
  have ex: "ExistsCamera cache_AB (CameraId cam7)" "ExistsImage cache_AB (ImageId imgB)"
    by (simp_all add: cache_AB_def cam7_def imgA_def imgB_def ExistsCamera_def ExistsImage_def)
  from manual_insertion_no_duplicates
    [of cache_AB cam7 imgB "[OpAddCamera cam7, OpAddImage imgA, OpAddImage imgB]" cache_AB]
    apply_ops_cache_AB ex
  show ?thesis by (simp add: cam7_def imgB_def)
qed

subsection \<open>Sizes\<close>

lemma apply_op_counts:
  "apply_op c x = Inr c' \<Longrightarrow>
     NumCameras c' = NumCameras c + (if is_OpAddCamera x then 1 else 0) \<and>
     NumImages c' = NumImages c + (if is_OpAddImage x then 1 else 0) \<and>
     correspondence_graph c' = correspondence_graph c"
  by (cases x)
    (auto simp: AddCamera_Inr AddImage_Inr NumCameras_def NumImages_def umap_size_emplace_new)

lemma apply_ops_counts:
  "apply_ops c xs = Inr c' \<Longrightarrow>
     NumCameras c' = NumCameras c + length (filter is_OpAddCamera xs) \<and>
     NumImages c' = NumImages c + length (filter is_OpAddImage xs) \<and>
     correspondence_graph c' = correspondence_graph c"
proof (induction xs arbitrary: c)
  case Nil
  then show ?case by simp
next
  case (Cons x xs)
  then obtain c1 where c1: "apply_op c x = Inr c1" "apply_ops c1 xs = Inr c'"
    by (auto split: sum.splits)
  from apply_op_counts [OF c1(1)] Cons.IH [OF c1(2)] show ?case
    by simp
qed

text \<open>
  Claim C8. \<open>NumCameras\<close> and \<open>NumImages\<close> are the numbers of entries of the camera
  and the image map (the number of their keys, the keys being distinct). After a
  sequence of manual insertions on a fresh cache that all succeeded, with no call of
  \<open>Load\<close>, \<open>NumCameras\<close> is the number of \<open>AddCamera\<close> calls, \<open>NumImages\<close> the number of
  \<open>AddImage\<close> calls, and the correspondence index has no edge.
\<close>

theorem Num_counts_entries:
  "NumCameras c = length (Cameras c) \<and> NumImages c = length (Images c) \<and>
   (cache_inv c \<longrightarrow>
      NumCameras c = card (umap_keys (Cameras c)) \<and>
      NumImages c = card (umap_keys (Images c))) \<and>
   (apply_ops DatabaseCache xs = Inr c' \<longrightarrow>
      NumCameras c' = length (filter is_OpAddCamera xs) \<and>
      NumImages c' = length (filter is_OpAddImage xs) \<and>
      NumImagePairs (CorrespondenceGraph c') = 0)"
proof -
  have "NumCameras c' = length (filter is_OpAddCamera xs) \<and>
      NumImages c' = length (filter is_OpAddImage xs) \<and>
      NumImagePairs (CorrespondenceGraph c') = 0" if "apply_ops DatabaseCache xs = Inr c'"
    using apply_ops_counts [OF that]
    by (simp add: NumCameras_def NumImages_def NumImagePairs_def CorrespondenceGraph_def
        umap_size_def DatabaseCache_def)
  moreover have "NumCameras c = card (umap_keys (Cameras c)) \<and>
      NumImages c = card (umap_keys (Images c))" if "cache_inv c"
    using that
    by (simp add: cache_inv_def NumCameras_def NumImages_def Cameras_def Images_def
        umap_size_card)
  ultimately show ?thesis
    by (simp add: NumCameras_def NumImages_def Cameras_def Images_def umap_size_def)
qed

theorem Num_counts_entries_witness:
  "cache_inv cache_AB \<and>
   apply_ops DatabaseCache [OpAddCamera cam7, OpAddImage imgA, OpAddImage imgB] = Inr cache_AB \<and>
   NumCameras cache_AB = 1 \<and> NumImages cache_AB = 2 \<and>
   NumImagePairs (CorrespondenceGraph cache_AB) = 0"
  using Num_counts_entries
    [of cache_AB "[OpAddCamera cam7, OpAddImage imgA, OpAddImage imgB]" cache_AB]
    apply_ops_cache_AB
  by (simp add: cache_inv_def umap_inv_def cache_AB_def)

subsection \<open>The loader\<close>

lemmas Load_eval = Load_def retained_images_def referenced_cameras_def load_match_def
  AddCorrespondences_def ImagePair_def umap_emplace_def NumCameras_def NumImages_def
  NumImagePairs_def umap_size_def Let_def DatabaseCache_def db_ABC_def cam7_def imgA_def
  imgB_def imgC_def

lemma Load_db_ABC_5: "Load DatabaseCache db_ABC 5 True {} = Inr cache_ABC"
  by (simp add: Load_eval cache_ABC_def)












text \<open>
  Claim C4. \<open>Load\<close> on a cache that holds a camera, an image or an edge, as it does
  after a first \<open>Load\<close> that read anything, is a fatal precondition violation; nothing is
  merged into the existing state.
\<close>

theorem Load_rejects_nonempty:
  "NumCameras c \<noteq> 0 \<or> NumImages c \<noteq> 0 \<or> NumImagePairs (CorrespondenceGraph c) \<noteq> 0 \<Longrightarrow>
     Load c database min_num_matches ignore_watermarks image_names = Inl FatalPrecondition"
  by (auto simp: Load_def CorrespondenceGraph_def)

theorem Load_rejects_nonempty_witness:
  "Load DatabaseCache db_ABC 5 True {} = Inr cache_ABC \<and>
   NumImages cache_ABC \<noteq> 0 \<and>
   Load cache_ABC db_ABC 5 True {} = Inl FatalPrecondition"
  using Load_rejects_nonempty [of cache_ABC db_ABC 5 True "{}"] Load_db_ABC_5
  by (simp add: cache_ABC_def NumImages_def umap_size_def)

subsection \<open>Statistics\<close>

lemma pairwise_matches_Nil_iff: "pairwise_matches g ids = [] \<longleftrightarrow> length ids \<le> 1"
  by (induction ids) (auto simp: Suc_le_eq)

lemma sort_Nil_iff: "sort xs = [] \<longleftrightarrow> xs = []"
  using length_sort [of "\<lambda>x. x" xs] by (metis length_0_conv)

lemma GetStatsString_cases:
  "GetStatsString D c =
     (if NumImages c = 0 then Inl (VectorOutOfBounds ''num_observations'')
      else if NumImages c = 1 then Inl (VectorOutOfBounds ''num_pairwise_matches'')
      else GetStatsString D c)"
  by (auto simp: GetStatsString_def Let_def NumImages_def umap_size_def sort_Nil_iff
      pairwise_matches_Nil_iff)

lemma GetStatsString_Inr_iff: "(\<exists>s. GetStatsString D c = Inr s) \<longleftrightarrow> 2 \<le> NumImages c"
proof (cases "2 \<le> NumImages c")
  case True
  then have "map (\<lambda>(image_id, img). int_of_count (NumObservations img)) (images c) \<noteq> []"
    "\<not> length (map (\<lambda>(image_id, img). int_of_image_t image_id) (images c)) \<le> 1"
    by (auto simp: NumImages_def umap_size_def)
  with True show ?thesis
    by (simp add: GetStatsString_def Let_def sort_Nil_iff pairwise_matches_Nil_iff)
next
  case False
  then have "NumImages c = 0 \<or> NumImages c = 1" by linarith
  with False show ?thesis
    by (subst GetStatsString_cases) auto
qed

text \<open>
  Claim C9. With no image, \<open>GetStatsString\<close> reads element 0 of the empty vector
  \<open>num_observations\<close>; with exactly one image it reads element 0 of the empty vector
  \<open>num_pairwise_matches\<close>. It returns a string exactly when the cache holds at least
  two images, which is therefore its precondition.
\<close>

theorem GetStatsString_needs_two_images:
  "(NumImages c = 0 \<longrightarrow> GetStatsString D c = Inl (VectorOutOfBounds ''num_observations'')) \<and>
   (NumImages c = 1 \<longrightarrow> GetStatsString D c = Inl (VectorOutOfBounds ''num_pairwise_matches'')) \<and>
   ((\<exists>s. GetStatsString D c = Inr s) \<longleftrightarrow> 2 \<le> NumImages c)"
  using GetStatsString_cases [of D c] GetStatsString_Inr_iff [of D c]
  by (metis one_neq_zero)


theorem GetStatsString_needs_two_images_witness:
  "NumImages DatabaseCache = 0 \<and>
   GetStatsString int_ops DatabaseCache = Inl (VectorOutOfBounds ''num_observations'') \<and>
   NumImages cache_A = 1 \<and>
   GetStatsString int_ops cache_A = Inl (VectorOutOfBounds ''num_pairwise_matches'') \<and>
   2 \<le> NumImages cache_AB \<and> \<not> isl (GetStatsString int_ops cache_AB)"
proof -
  have n: "NumImages DatabaseCache = 0" "NumImages cache_A = 1" "2 \<le> NumImages cache_AB"
    by (simp_all add: NumImages_def umap_size_def DatabaseCache_def cache_A_def cache_AB_def)
  from GetStatsString_needs_two_images [of DatabaseCache int_ops]
    GetStatsString_needs_two_images [of cache_A int_ops]
    GetStatsString_needs_two_images [of cache_AB int_ops] n
  show ?thesis by auto
qed

lemma ImagePair_commute: "ImagePair a b = ImagePair b a"
  by (auto simp: ImagePair_def)

lemma NumCorrespondencesBetweenImages_commute:
  "NumCorrespondencesBetweenImages g a b = NumCorrespondencesBetweenImages g b a"
  by (simp add: NumCorrespondencesBetweenImages_def ImagePair_commute [of a b])

lemma mset_pairwise_matches_insort:
  "mset (pairwise_matches g (insort x xs)) =
     mset (pairwise_matches g (x # xs))"
proof (induction xs)
  case Nil
  show ?case by simp
next
  case (Cons y ys)
  show ?case
  proof (cases "x \<le> y")
    case True
    then show ?thesis by simp
  next
    case False
    then have "mset (pairwise_matches g (insort x (y # ys))) =
        mset (map (\<lambda>id_j. int_of_count (NumCorrespondencesBetweenImages g
               (image_t_of_int y) (image_t_of_int id_j))) (insort x ys)) +
        mset (pairwise_matches g (x # ys))"
      by (simp add: Cons.IH)
    also have "mset (map (\<lambda>id_j. int_of_count (NumCorrespondencesBetweenImages g
               (image_t_of_int y) (image_t_of_int id_j))) (insort x ys)) =
        mset (map (\<lambda>id_j. int_of_count (NumCorrespondencesBetweenImages g
               (image_t_of_int y) (image_t_of_int id_j))) (x # ys))"
      by simp
    finally show ?thesis
      by (simp add: NumCorrespondencesBetweenImages_commute [of g "image_t_of_int y"])
  qed
qed

lemma mset_pairwise_matches_Cons:
  "mset xs = mset ys \<Longrightarrow>
     mset (pairwise_matches g xs) = mset (pairwise_matches g ys) \<Longrightarrow>
     mset (pairwise_matches g (x # xs)) = mset (pairwise_matches g (x # ys))"
  by simp

lemma mset_pairwise_matches_sort:
  "mset (pairwise_matches g (sort xs)) = mset (pairwise_matches g xs)"
proof (induction xs)
  case Nil
  show ?case by simp
next
  case (Cons x xs)
  have "mset (pairwise_matches g (sort (x # xs))) = mset (pairwise_matches g (x # sort xs))"
    by (simp add: mset_pairwise_matches_insort del: pairwise_matches.simps)
  also have "\<dots> = mset (pairwise_matches g (x # xs))"
    by (rule mset_pairwise_matches_Cons) (simp_all add: Cons.IH)
  finally show ?case .
qed

lemma mset_pairwise_matches_perm:
  assumes "mset xs = mset ys"
  shows "mset (pairwise_matches g xs) = mset (pairwise_matches g ys)"
proof -
  from assms have "sort xs = sort ys"
    by (simp add: properties_for_sort)
  then show ?thesis
    using mset_pairwise_matches_sort [of g xs] mset_pairwise_matches_sort [of g ys] by simp
qed

lemma pairwise_matches_cong_graph:
  assumes "\<And>a b. NumCorrespondencesBetweenImages g a b = NumCorrespondencesBetweenImages g' a b"
  shows "pairwise_matches g ids = pairwise_matches g' ids"
  by (induction ids) (simp_all add: assms)

lemma sort_cong_mset: "mset xs = mset ys \<Longrightarrow> sort xs = sort ys"
  by (simp add: properties_for_sort)

lemma GetStatsString_cong:
  assumes "mset (map (\<lambda>(image_id, img). int_of_count (NumObservations img)) (images c1)) =
           mset (map (\<lambda>(image_id, img). int_of_count (NumObservations img)) (images c2))"
      and "mset (pairwise_matches (correspondence_graph c1)
                  (map (\<lambda>(image_id, img). int_of_image_t image_id) (images c1))) =
           mset (pairwise_matches (correspondence_graph c2)
                  (map (\<lambda>(image_id, img). int_of_image_t image_id) (images c2)))"
  shows "GetStatsString D c1 = GetStatsString D c2"
  unfolding GetStatsString_def Let_def
    sort_cong_mset [OF assms(1)] sort_cong_mset [OF assms(2)] ..


text \<open>Two hash maps with the same entries are permutations of each other.\<close>

lemma umap_same_entries_mset:
  assumes "umap_inv m1" "umap_inv m2" "set m1 = set m2"
  shows "mset m1 = mset m2"
proof -
  from assms(1,2) have "distinct m1" "distinct m2"
    by (simp_all add: umap_inv_def distinct_map)
  with assms(3) show ?thesis
    by (simp add: set_eq_iff_mset_eq_distinct)
qed

text \<open>
  Claim C10. The returned string depends on the cache only through the multiset of the
  per-image observation counts and the multiset of the pairwise correspondence counts:
  both vectors are sorted before anything is read from them. Two caches with the same
  image entries, in any iteration order, and the same correspondence counts between
  images return the same result, and with at least two images that result is a string.
  This holds for every arithmetic and formatting of the \<open>double\<close> average.
\<close>

theorem GetStatsString_order_independent:
  "(mset (map (\<lambda>(image_id, img). int_of_count (NumObservations img)) (images c1)) =
      mset (map (\<lambda>(image_id, img). int_of_count (NumObservations img)) (images c2)) \<and>
    mset (pairwise_matches (correspondence_graph c1)
           (map (\<lambda>(image_id, img). int_of_image_t image_id) (images c1))) =
      mset (pairwise_matches (correspondence_graph c2)
             (map (\<lambda>(image_id, img). int_of_image_t image_id) (images c2))) \<longrightarrow>
    GetStatsString D c1 = GetStatsString D c2) \<and>
   (mset (Images c1) = mset (Images c2) \<and>
    (\<forall>a b. NumCorrespondencesBetweenImages (CorrespondenceGraph c1) a b =
            NumCorrespondencesBetweenImages (CorrespondenceGraph c2) a b) \<longrightarrow>
    GetStatsString D c1 = GetStatsString D c2 \<and>
    (2 \<le> NumImages c1 \<longrightarrow>
       (\<exists>s. GetStatsString D c1 = Inr s \<and> GetStatsString D c2 = Inr s)))"
proof -
  have same: "GetStatsString D c1 = GetStatsString D c2"
    if im: "mset (Images c1) = mset (Images c2)"
      and gr: "\<And>a b. NumCorrespondencesBetweenImages (CorrespondenceGraph c1) a b =
            NumCorrespondencesBetweenImages (CorrespondenceGraph c2) a b"
  proof (rule GetStatsString_cong)
    from im have im': "mset (images c1) = mset (images c2)"
      by (simp add: Images_def)
    then show "mset (map (\<lambda>(image_id, img). int_of_count (NumObservations img)) (images c1)) =
        mset (map (\<lambda>(image_id, img). int_of_count (NumObservations img)) (images c2))"
      by simp
    from im' have "mset (map (\<lambda>(image_id, img). int_of_image_t image_id) (images c1)) =
        mset (map (\<lambda>(image_id, img). int_of_image_t image_id) (images c2))"
      by simp
    then have "mset (pairwise_matches (correspondence_graph c1)
           (map (\<lambda>(image_id, img). int_of_image_t image_id) (images c1))) =
        mset (pairwise_matches (correspondence_graph c1)
           (map (\<lambda>(image_id, img). int_of_image_t image_id) (images c2)))"
      by (rule mset_pairwise_matches_perm)
    also have "pairwise_matches (correspondence_graph c1)
           (map (\<lambda>(image_id, img). int_of_image_t image_id) (images c2)) =
        pairwise_matches (correspondence_graph c2)
           (map (\<lambda>(image_id, img). int_of_image_t image_id) (images c2))"
      using gr by (intro pairwise_matches_cong_graph) (simp add: CorrespondenceGraph_def)
    finally show "mset (pairwise_matches (correspondence_graph c1)
           (map (\<lambda>(image_id, img). int_of_image_t image_id) (images c1))) =
        mset (pairwise_matches (correspondence_graph c2)
           (map (\<lambda>(image_id, img). int_of_image_t image_id) (images c2)))" .
  qed
  have "\<exists>s. GetStatsString D c1 = Inr s \<and> GetStatsString D c2 = Inr s"
    if "GetStatsString D c1 = GetStatsString D c2" "2 \<le> NumImages c1"
    using that GetStatsString_Inr_iff [of D c1] by auto
  with same GetStatsString_cong [of c1 c2 D] show ?thesis
    by blast
qed

lemma same_graph_ABC_CBA:
  "NumCorrespondencesBetweenImages (CorrespondenceGraph cache_ABC) a b =
   NumCorrespondencesBetweenImages (CorrespondenceGraph cache_CBA) a b"
  by (cases "ImagePair a b")
    (auto simp: NumCorrespondencesBetweenImages_def CorrespondenceGraph_def cache_ABC_def
      cache_CBA_def)

theorem GetStatsString_order_independent_witness:
  "mset (Images cache_ABC) = mset (Images cache_CBA) \<and>
   Images cache_ABC \<noteq> Images cache_CBA \<and>
   2 \<le> NumImages cache_ABC \<and>
   GetStatsString int_ops cache_ABC = GetStatsString int_ops cache_CBA \<and>
   GetStatsString int_ops cache_ABC = Inr
     ''\<newline>Avg. Per-view Observations: 6\<newline>Min. Per-view Observations: 4\<newline>Max. Per-view Observations: 9\<newline>Avg. Pair-wise Matches: 5\<newline>Min. Pair-wise Matches: 0\<newline>Max. Pair-wise Matches: 10\<newline>''"
proof -
  have im: "mset (Images cache_ABC) = mset (Images cache_CBA)"
    by (simp add: Images_def cache_ABC_def cache_CBA_def)
  have ne: "Images cache_ABC \<noteq> Images cache_CBA"
    by (simp add: Images_def cache_ABC_def cache_CBA_def)
  have two: "2 \<le> NumImages cache_ABC"
    by (simp add: NumImages_def umap_size_def cache_ABC_def)
  have val: "GetStatsString int_ops cache_ABC = Inr
     ''\<newline>Avg. Per-view Observations: 6\<newline>Min. Per-view Observations: 4\<newline>Max. Per-view Observations: 9\<newline>Avg. Pair-wise Matches: 5\<newline>Min. Pair-wise Matches: 0\<newline>Max. Pair-wise Matches: 10\<newline>''"
    by code_simp
  from GetStatsString_order_independent [of cache_ABC cache_CBA int_ops] im two
    same_graph_ABC_CBA
  have "GetStatsString int_ops cache_ABC = GetStatsString int_ops cache_CBA"
    by simp
  with im ne two val show ?thesis by simp
qed

text \<open>The lines written to \<open>std::cout\<close> do follow the iteration order.\<close>

lemma GetStatsString_cout_order:
  "GetStatsString_cout cache_ABC \<noteq> GetStatsString_cout cache_CBA"
  by (simp add: GetStatsString_cout_def cache_ABC_def cache_CBA_def imgA_def imgC_def)

end
